theory Spec2Isabelle
  imports Main "HOL-Library.Word"
begin

section \<open>Data model of the machined controller\<close>

text \<open>
  The development embeds \<^verbatim>\<open>internal/app/machined/pkg/runtime/v1alpha1/v1alpha1_controller.go\<close>.

  Modelled from the spec: the declaration of \<^verbatim>\<open>runtime.Sequence\<close> is not part of the
  sources at hand. The seven named constants are the ones the \<^verbatim>\<open>switch\<close> of
  \<^verbatim>\<open>Controller.phases\<close> compares against (Go rejects duplicate constants in a switch, so
  they are distinct); \<open>SequenceOther\<close> stands for every other value of the type.
\<close>

datatype Sequence =
    SequenceBoot
  | SequenceInitialize
  | SequenceInstall
  | SequenceShutdown
  | SequenceReboot
  | SequenceUpgrade
  | SequenceReset
  | SequenceOther int

text \<open>
  The \<^verbatim>\<open>data interface{}\<close> argument, by dynamic type: the untyped \<^verbatim>\<open>nil\<close>, a
  \<^verbatim>\<open>*machine.UpgradeRequest\<close>, a \<^verbatim>\<open>*machine.ResetRequest\<close> (the pointers are opaque
  values of types \<open>'u\<close> and \<open>'r\<close>), or a value of any other type, named by a string.
\<close>

datatype ('u, 'r) data =
    NilData
  | UpgradeRequest 'u
  | ResetRequest 'r
  | OtherData string

text \<open>
  Go errors. The three sentinels are the variables of package \<^verbatim>\<open>runtime\<close>;
  \<open>ErrorsNew m\<close> is any other leaf error with message \<open>m\<close>; \<open>Errorf p e\<close> is
  \<^verbatim>\<open>fmt.Errorf(p + "%w", e)\<close>: its message is \<open>p\<close> followed by the message of \<open>e\<close>,
  and it unwraps to \<open>e\<close>.
\<close>

datatype error =
    ErrUndefinedRuntime
  | ErrLocked
  | ErrInvalidSequenceData
  | ErrorsNew string
  | Errorf string error

text \<open>The message of an error; \<open>txt\<close> gives the texts of the sentinels, which are
  declared outside the sources at hand.\<close>

fun Error :: "(error \<Rightarrow> string) \<Rightarrow> error \<Rightarrow> string" where
  "Error txt (ErrorsNew m) = m"
| "Error txt (Errorf p e) = p @ Error txt e"
| "Error txt e = txt e"


text \<open>The lines the controller writes with \<^verbatim>\<open>log.Printf\<close>, without the elapsed times.\<close>

datatype log_line =
    LogSequence string nat
  | LogSequenceDone string
  | LogPhase nat nat nat
  | LogPhaseDone nat nat
  | LogTaskStarting nat nat
  | LogTaskDone nat nat
  | LogShutdownSIGTERM
  | LogShutdownACPI
  | LogShutdownFailed error

text \<open>
  The mutable state: the \<^verbatim>\<open>semaphore int32\<close> field of the controller (a 32-bit word; its only field
  written after construction), the machine that the tasks act on, and the log.
\<close>

record 'w state =
  semaphore :: "32 word"
  machine :: 'w
  logs :: "log_line list"

definition log_Printf :: "log_line \<Rightarrow> 'w state \<Rightarrow> 'w state" where
  "log_Printf l st = st\<lparr>logs := logs st @ [l]\<rparr>"

section \<open>The lock\<close>

text \<open>\<^verbatim>\<open>atomic.CompareAndSwapInt32(addr, old, new)\<close> on the value stored at \<open>addr\<close>:
  whether it swapped, and the value stored afterwards.\<close>

definition CompareAndSwapInt32 :: "32 word \<Rightarrow> 32 word \<Rightarrow> 32 word \<Rightarrow> bool \<times> 32 word" where
  "CompareAndSwapInt32 v old new = (if v = old then (True, new) else (False, v))"

definition TryLock :: "'w state \<Rightarrow> bool \<times> 'w state" where
  "TryLock st =
     (case CompareAndSwapInt32 (semaphore st) 0 1 of
        (swapped, v) \<Rightarrow> (\<not> swapped, st\<lparr>semaphore := v\<rparr>))"

definition Unlock :: "'w state \<Rightarrow> bool \<times> 'w state" where
  "Unlock st =
     (case CompareAndSwapInt32 (semaphore st) 1 0 of
        (swapped, v) \<Rightarrow> (swapped, st\<lparr>semaphore := v\<rparr>))"

section \<open>Collaborators outside the controller\<close>

text \<open>Decimal rendering of a non-negative number, as \<^verbatim>\<open>%d\<close> prints it.\<close>

definition digit_char :: "nat \<Rightarrow> char" where
  "digit_char d = ''0123456789'' ! d"

function show_nat :: "nat \<Rightarrow> string" where
  "show_nat n = (if n < 10 then [digit_char n] else show_nat (n div 10) @ [digit_char (n mod 10)])"
  by pat_completeness auto
termination
  by (relation "measure (\<lambda>n. n)") auto

declare show_nat.simps [simp del]

text \<open>
  Modelled from the spec: the platform mode type is declared outside the sources at hand;
  the controller only compares it with \<^verbatim>\<open>runtime.ModeContainer\<close>.
\<close>

datatype Mode = ModeContainer | ModeOther

text \<open>
  The functions the controller calls but does not define are parameters:
  \<^verbatim>\<open>seq.String()\<close>, \<^verbatim>\<open>kmsg.SetupLogger\<close> called with the prefix (it may fail, depending on
  the machine), and \<^verbatim>\<open>c.r.State().Platform().Mode()\<close>.
\<close>

record ('rt, 'w) externals =
  String :: "Sequence \<Rightarrow> string"
  SetupLogger :: "string \<Rightarrow> 'w \<Rightarrow> error option"
  PlatformMode :: "'rt \<Rightarrow> Mode"

text \<open>
  A task (\<^verbatim>\<open>runtime.TaskExecutionFunc\<close>) receives the runtime pointer \<^verbatim>\<open>c.r\<close>, acts on the
  machine and returns an error or \<^verbatim>\<open>nil\<close>. A task factory (\<^verbatim>\<open>runtime.TaskSetupFunc\<close>)
  returns a task or \<^verbatim>\<open>nil\<close>. A phase is a list of factories.
\<close>

type_synonym ('rt, 'w) TaskExecutionFunc = "'rt option \<Rightarrow> 'w \<Rightarrow> error option \<times> 'w"

type_synonym ('rt, 'u, 'r, 'w) TaskSetupFunc =
  "Sequence \<Rightarrow> ('u, 'r) data \<Rightarrow> ('rt, 'w) TaskExecutionFunc option"

type_synonym ('rt, 'u, 'r, 'w) Phase = "('rt, 'u, 'r, 'w) TaskSetupFunc list"

text \<open>The planner \<^verbatim>\<open>c.s\<close>: its seven methods are parameters.\<close>

record ('rt, 'u, 'r, 'w) Sequencer =
  Boot :: "'rt option \<Rightarrow> ('rt, 'u, 'r, 'w) Phase list"
  Initialize :: "'rt option \<Rightarrow> ('rt, 'u, 'r, 'w) Phase list"
  Install :: "'rt option \<Rightarrow> ('rt, 'u, 'r, 'w) Phase list"
  Shutdown :: "'rt option \<Rightarrow> ('rt, 'u, 'r, 'w) Phase list"
  Reboot :: "'rt option \<Rightarrow> ('rt, 'u, 'r, 'w) Phase list"
  Upgrade :: "'rt option \<Rightarrow> 'u \<Rightarrow> ('rt, 'u, 'r, 'w) Phase list"
  Reset :: "'rt option \<Rightarrow> 'r \<Rightarrow> ('rt, 'u, 'r, 'w) Phase list"

text \<open>The fields of the controller that are fixed at construction; \<open>r = None\<close> is the
  \<^verbatim>\<open>nil\<close> runtime pointer.\<close>

record ('rt, 'u, 'r, 'w) Controller =
  r :: "'rt option"
  s :: "('rt, 'u, 'r, 'w) Sequencer"

section \<open>Running tasks and phases\<close>

definition runTask ::
  "('rt, 'w) externals \<Rightarrow> ('rt, 'u, 'r, 'w) Controller \<Rightarrow> nat \<Rightarrow> ('rt, 'u, 'r, 'w) TaskSetupFunc
    \<Rightarrow> Sequence \<Rightarrow> ('u, 'r) data \<Rightarrow> 'w \<Rightarrow> error option \<times> 'w" where
  "runTask x c n f seq dat w =
     (case SetupLogger x (''[talos] task '' @ show_nat n @ '':'') w of
        Some err \<Rightarrow> (Some err, w)
      | None \<Rightarrow>
         (case f seq dat of
            Some task \<Rightarrow> task (r c) w
          | None \<Rightarrow> (None, w)))"

definition progress :: "nat \<Rightarrow> nat \<Rightarrow> string" where
  "progress number count = show_nat number @ ''/'' @ show_nat count"

text \<open>
  The function that \<open>runPhase\<close> hands to \<^verbatim>\<open>eg.Go\<close> for task \<open>number\<close> of \<open>count\<close>. A unit
  is one step of the model: it takes effect at the moment it completes.
\<close>

definition runPhase_unit ::
  "('rt, 'w) externals \<Rightarrow> ('rt, 'u, 'r, 'w) Controller \<Rightarrow> nat \<Rightarrow> nat
    \<Rightarrow> ('rt, 'u, 'r, 'w) TaskSetupFunc \<Rightarrow> Sequence \<Rightarrow> ('u, 'r) data
    \<Rightarrow> 'w state \<Rightarrow> error option \<times> 'w state" where
  "runPhase_unit x c number count task seq dat st =
     (case runTask x c number task seq dat (machine (log_Printf (LogTaskStarting number count) st)) of
        (res, w) \<Rightarrow>
          ((case res of
              Some err \<Rightarrow> Some (Errorf (''task '' @ progress number count @ '': failed, '') err)
            | None \<Rightarrow> None),
           log_Printf (LogTaskDone number count)
             ((log_Printf (LogTaskStarting number count) st)\<lparr>machine := w\<rparr>)))"

text \<open>
  The order in which the \<open>n\<close> units of a group complete is not fixed by the program. It is
  a parameter: the schedule \<open>sched\<close> lists unit indices (from 0) in completion order; indices
  out of range and repetitions are dropped, and units the schedule does not mention complete
  last, in launch order. Every permutation of the indices is its own completion order.
\<close>

definition completion_order :: "nat \<Rightarrow> nat list \<Rightarrow> nat list" where
  "completion_order n sched =
     remdups (filter (\<lambda>i. i < n) sched) @ filter (\<lambda>i. i \<notin> set sched) [0..<n]"

text \<open>
  \<^verbatim>\<open>errgroup.Group\<close> without a context: each unit runs to its end, the first non-nil
  error returned is stored (\<open>g\<close>, written once), and \<^verbatim>\<open>Wait\<close> returns it after all units
  have returned.
\<close>

fun errgroup_Wait ::
  "('w state \<Rightarrow> error option \<times> 'w state) list \<Rightarrow> nat list \<Rightarrow> error option \<Rightarrow> 'w state
    \<Rightarrow> error option \<times> 'w state" where
  "errgroup_Wait units [] g st = (g, st)"
| "errgroup_Wait units (i # order) g st =
     (case (units ! i) st of
        (res, st') \<Rightarrow> errgroup_Wait units order (case g of None \<Rightarrow> res | Some e \<Rightarrow> Some e) st')"

definition runPhase ::
  "('rt, 'w) externals \<Rightarrow> ('rt, 'u, 'r, 'w) Controller \<Rightarrow> ('rt, 'u, 'r, 'w) Phase
    \<Rightarrow> Sequence \<Rightarrow> ('u, 'r) data \<Rightarrow> nat list \<Rightarrow> 'w state \<Rightarrow> error option \<times> 'w state" where
  "runPhase x c phase seq dat sched st =
     errgroup_Wait
       (map (\<lambda>(number, task). runPhase_unit x c (number + 1) (length phase) task seq dat)
          (enumerate 0 phase))
       (completion_order (length phase) sched) None st"

section \<open>Running a sequence\<close>

text \<open>The loop of \<open>run\<close>: \<open>k\<close> phases are done, \<open>count\<close> is \<^verbatim>\<open>len(phases)\<close>, and
  \<open>scheds\<close> holds one schedule for each remaining phase.\<close>

fun run_loop ::
  "('rt, 'w) externals \<Rightarrow> ('rt, 'u, 'r, 'w) Controller \<Rightarrow> Sequence \<Rightarrow> nat \<Rightarrow> ('u, 'r) data
    \<Rightarrow> nat \<Rightarrow> ('rt, 'u, 'r, 'w) Phase list \<Rightarrow> nat list list \<Rightarrow> 'w state
    \<Rightarrow> error option \<times> 'w state" where
  "run_loop x c seq count dat k [] scheds st = (None, st)"
| "run_loop x c seq count dat k (phase # rest) scheds st =
     (case runPhase x c phase seq dat (case scheds of [] \<Rightarrow> [] | sched # _ \<Rightarrow> sched)
             (log_Printf (LogPhase (k + 1) count (length phase)) st) of
        (Some err, st') \<Rightarrow>
          (Some (Errorf (''error running phase '' @ show_nat (k + 1) @ '' in '' @ String x seq
                          @ '' sequence: '') err), st')
      | (None, st') \<Rightarrow>
          run_loop x c seq count dat (k + 1) rest (tl scheds)
            (log_Printf (LogPhaseDone (k + 1) count) st'))"

definition run ::
  "('rt, 'w) externals \<Rightarrow> ('rt, 'u, 'r, 'w) Controller \<Rightarrow> Sequence \<Rightarrow> ('rt, 'u, 'r, 'w) Phase list
    \<Rightarrow> ('u, 'r) data \<Rightarrow> nat list list \<Rightarrow> 'w state \<Rightarrow> error option \<times> 'w state" where
  "run x c seq phs dat scheds st =
     (case run_loop x c seq (length phs) dat 0 phs scheds
             (log_Printf (LogSequence (String x seq) (length phs)) st) of
        (err, st') \<Rightarrow> (err, log_Printf (LogSequenceDone (String x seq)) st'))"

definition phases ::
  "('rt, 'u, 'r, 'w) Controller \<Rightarrow> Sequence \<Rightarrow> ('u, 'r) data
    \<Rightarrow> ('rt, 'u, 'r, 'w) Phase list \<times> error option" where
  "phases c seq dat =
     (case seq of
        SequenceBoot \<Rightarrow> (Boot (s c) (r c), None)
      | SequenceInitialize \<Rightarrow> (Initialize (s c) (r c), None)
      | SequenceInstall \<Rightarrow> (Install (s c) (r c), None)
      | SequenceShutdown \<Rightarrow> (Shutdown (s c) (r c), None)
      | SequenceReboot \<Rightarrow> (Reboot (s c) (r c), None)
      | SequenceUpgrade \<Rightarrow>
          (case dat of
             UpgradeRequest req \<Rightarrow> (Upgrade (s c) (r c) req, None)
           | _ \<Rightarrow> ([], Some ErrInvalidSequenceData))
      | SequenceReset \<Rightarrow>
          (case dat of
             ResetRequest req \<Rightarrow> (Reset (s c) (r c) req, None)
           | _ \<Rightarrow> ([], Some ErrInvalidSequenceData))
      | SequenceOther _ \<Rightarrow> ([], None))"

definition Run ::
  "('rt, 'w) externals \<Rightarrow> ('rt, 'u, 'r, 'w) Controller \<Rightarrow> Sequence \<Rightarrow> ('u, 'r) data
    \<Rightarrow> nat list list \<Rightarrow> 'w state \<Rightarrow> error option \<times> 'w state" where
  "Run x c seq dat scheds st =
     (case r c of
        None \<Rightarrow> (Some ErrUndefinedRuntime, st)
      | Some _ \<Rightarrow>
         (case TryLock st of
            (True, st1) \<Rightarrow> (Some ErrLocked, st1)
          | (False, st1) \<Rightarrow>
             (case (case phases c seq dat of
                      (_, Some err) \<Rightarrow> (Some err, st1)
                    | (phs, None) \<Rightarrow> run x c seq phs dat scheds st1) of
                (res, st2) \<Rightarrow> (res, snd (Unlock st2)))))"

section \<open>The event listener\<close>

text \<open>
  What reaches the channel \<^verbatim>\<open>errCh\<close> first decides the result of \<open>ListenForEvents\<close>:
  the goroutine woken by the termination signal, or the one in which
  \<^verbatim>\<open>acpi.StartACPIListener\<close> has returned (with an error or with \<^verbatim>\<open>nil\<close>). The source
  that is first is a parameter; \<open>None\<close> means that neither ever sends.
\<close>

datatype event = SIGTERM | ACPI "error option"

datatype 'a outcome = Returns 'a | Blocks | Panics

definition sigterm_goroutine ::
  "('rt, 'w) externals \<Rightarrow> ('rt, 'u, 'r, 'w) Controller \<Rightarrow> nat list list \<Rightarrow> 'w state
    \<Rightarrow> error option \<times> 'w state" where
  "sigterm_goroutine x c scheds st =
     (case Run x c SequenceShutdown NilData scheds (log_Printf LogShutdownSIGTERM st) of
        (Some err, st') \<Rightarrow> (None, log_Printf (LogShutdownFailed err) st')
      | (None, st') \<Rightarrow> (None, st'))"

definition acpi_goroutine ::
  "('rt, 'w) externals \<Rightarrow> ('rt, 'u, 'r, 'w) Controller \<Rightarrow> error option \<Rightarrow> nat list list
    \<Rightarrow> 'w state \<Rightarrow> error option \<times> 'w state" where
  "acpi_goroutine x c listener scheds st =
     (case listener of
        Some err \<Rightarrow> (Some err, st)
      | None \<Rightarrow>
         (case Run x c SequenceShutdown NilData scheds (log_Printf LogShutdownACPI st) of
            (Some err, st') \<Rightarrow> (None, log_Printf (LogShutdownFailed err) st')
          | (None, st') \<Rightarrow> (None, st')))"

text \<open>With a \<^verbatim>\<open>nil\<close> runtime the call \<^verbatim>\<open>c.r.State()\<close> dereferences a nil pointer.\<close>

definition ListenForEvents ::
  "('rt, 'w) externals \<Rightarrow> ('rt, 'u, 'r, 'w) Controller \<Rightarrow> event option \<Rightarrow> nat list list
    \<Rightarrow> 'w state \<Rightarrow> error option outcome \<times> 'w state" where
  "ListenForEvents x c first scheds st =
     (case r c of
        None \<Rightarrow> (Panics, st)
      | Some rt \<Rightarrow>
         if PlatformMode x rt = ModeContainer then (Returns None, st)
         else
           (case first of
              None \<Rightarrow> (Blocks, st)
            | Some SIGTERM \<Rightarrow>
                (case sigterm_goroutine x c scheds st of (v, st') \<Rightarrow> (Returns v, st'))
            | Some (ACPI listener) \<Rightarrow>
                (case acpi_goroutine x c listener scheds st of (v, st') \<Rightarrow> (Returns v, st'))))"

section \<open>Observing a phase\<close>

text \<open>
  Specification side, for stating what \<open>runPhase\<close> does: the results of the tasks
  themselves, each paired with its 1-based number, in the order \<open>order\<close> (indices from 0) in
  which they complete, together with the machine they leave; and the first failure in such a
  list of results.
\<close>

fun task_results ::
  "('rt, 'w) externals \<Rightarrow> ('rt, 'u, 'r, 'w) Controller \<Rightarrow> ('rt, 'u, 'r, 'w) Phase
    \<Rightarrow> Sequence \<Rightarrow> ('u, 'r) data \<Rightarrow> nat list \<Rightarrow> 'w \<Rightarrow> (nat \<times> error option) list \<times> 'w" where
  "task_results x c phase seq dat [] w = ([], w)"
| "task_results x c phase seq dat (i # order) w =
     (case runTask x c (i + 1) (phase ! i) seq dat w of
        (res, w') \<Rightarrow>
          (case task_results x c phase seq dat order w' of
             (rs, w'') \<Rightarrow> ((i + 1, res) # rs, w'')))"

fun first_failure :: "(nat \<times> error option) list \<Rightarrow> (nat \<times> error) option" where
  "first_failure [] = None"
| "first_failure ((n, Some e) # rs) = Some (n, e)"
| "first_failure ((n, None) # rs) = first_failure rs"

definition task_log :: "nat \<Rightarrow> (nat \<times> error option) list \<Rightarrow> log_line list" where
  "task_log count rs = concat (map (\<lambda>(n, res). [LogTaskStarting n count, LogTaskDone n count]) rs)"

section \<open>Observing a sequence\<close>





section \<open>A concrete controller for evaluation\<close>

text \<open>
  A small instance on which the definitions are evaluated: the machine is the list of markers
  that tasks have left behind, a marker task appends its marker and succeeds, a failing task
  returns an error and leaves the machine alone. The shutdown plan is the one of the spec's
  scenario; the boot plan has a phase after a failing one.
\<close>

type_synonym scenario_task = "(unit, unit, unit, string list) TaskSetupFunc"

definition marker_task :: "string \<Rightarrow> scenario_task" where
  "marker_task m seq dat = Some (\<lambda>rt w. (None, w @ [m]))"

definition failing_task :: "string \<Rightarrow> scenario_task" where
  "failing_task m seq dat = Some (\<lambda>rt w. (Some (ErrorsNew m), w))"

definition no_task :: "scenario_task" where
  "no_task seq dat = None"

definition scenario_Sequencer :: "(unit, unit, unit, string list) Sequencer" where
  "scenario_Sequencer =
     \<lparr>Boot = (\<lambda>rt. [[marker_task ''P1a'', marker_task ''P1b''],
                     [marker_task ''P2a'', failing_task ''boom''],
                     [marker_task ''P3'']]),
      Initialize = (\<lambda>rt. []),
      Install = (\<lambda>rt. [[marker_task ''I1'', no_task]]),
      Shutdown = (\<lambda>rt. [[marker_task ''A'', marker_task ''B''], [failing_task ''disk busy'']]),
      Reboot = (\<lambda>rt. [[marker_task ''X'', failing_task ''second'', failing_task ''third'']]),
      Upgrade = (\<lambda>rt req. [[marker_task ''U'']]),
      Reset = (\<lambda>rt req. [[marker_task ''R'']])\<rparr>"

definition scenario_Controller :: "(unit, unit, unit, string list) Controller" where
  "scenario_Controller = \<lparr>r = Some (), s = scenario_Sequencer\<rparr>"

fun scenario_String :: "Sequence \<Rightarrow> string" where
  "scenario_String SequenceBoot = ''boot''"
| "scenario_String SequenceInitialize = ''initialize''"
| "scenario_String SequenceInstall = ''install''"
| "scenario_String SequenceShutdown = ''shutdown''"
| "scenario_String SequenceReboot = ''reboot''"
| "scenario_String SequenceUpgrade = ''upgrade''"
| "scenario_String SequenceReset = ''reset''"
| "scenario_String (SequenceOther n) = ''noop''"

definition scenario_externals :: "(unit, string list) externals" where
  "scenario_externals =
     \<lparr>String = scenario_String, SetupLogger = (\<lambda>prefix w. None), PlatformMode = (\<lambda>rt. ModeOther)\<rparr>"

definition scenario_state :: "32 word \<Rightarrow> string list state" where
  "scenario_state v = \<lparr>semaphore = v, machine = [], logs = []\<rparr>"

section \<open>Properties of the lock\<close>

lemma TryLock_free: "semaphore st = 0 \<Longrightarrow> TryLock st = (False, st\<lparr>semaphore := 1\<rparr>)"
  by (simp add: TryLock_def CompareAndSwapInt32_def)

lemma TryLock_held: "semaphore st \<noteq> 0 \<Longrightarrow> TryLock st = (True, st)"
  by (simp add: TryLock_def CompareAndSwapInt32_def)

lemma Unlock_held: "semaphore st = 1 \<Longrightarrow> Unlock st = (True, st\<lparr>semaphore := 0\<rparr>)"
  by (simp add: Unlock_def CompareAndSwapInt32_def)

lemma Unlock_not_held: "semaphore st \<noteq> 1 \<Longrightarrow> Unlock st = (False, st)"
  by (simp add: Unlock_def CompareAndSwapInt32_def)

section \<open>The lock is only written by the lock operations\<close>

lemma runPhase_unit_semaphore:
  "semaphore (snd (runPhase_unit x c number count task seq dat st)) = semaphore st"
  by (simp add: runPhase_unit_def log_Printf_def split: prod.splits)

lemma errgroup_Wait_semaphore:
  "\<forall>i \<in> set order. \<forall>st. semaphore (snd ((units ! i) st)) = semaphore st \<Longrightarrow>
   semaphore (snd (errgroup_Wait units order g st)) = semaphore st"
proof (induction order arbitrary: g st)
  case Nil
  then show ?case by simp
next
  case (Cons i order)
  obtain res st' where u: "(units ! i) st = (res, st')" by (cases "(units ! i) st")
  from Cons.prems have "semaphore (snd ((units ! i) st)) = semaphore st" by simp
  with u have s: "semaphore st' = semaphore st" by simp
  from Cons.prems have "\<forall>i \<in> set order. \<forall>st. semaphore (snd ((units ! i) st)) = semaphore st" by simp
  from Cons.IH [OF this] s u show ?case by simp
qed

lemma completion_order_set: "set (completion_order n sched) = {0..<n}"
  by (auto simp: completion_order_def)

lemma completion_order_distinct: "distinct (completion_order n sched)"
  by (auto simp: completion_order_def)

lemma completion_order_perm:
  "distinct sched \<Longrightarrow> set sched = {0..<n} \<Longrightarrow> completion_order n sched = sched"
  by (auto simp: completion_order_def filter_id_conv filter_empty_conv)

lemma runPhase_semaphore:
  "semaphore (snd (runPhase x c phase seq dat sched st)) = semaphore st"
  unfolding runPhase_def
  by (rule errgroup_Wait_semaphore)
     (auto simp: completion_order_set nth_enumerate_eq runPhase_unit_semaphore)

lemma run_loop_semaphore:
  "semaphore (snd (run_loop x c seq count dat k phs scheds st)) = semaphore st"
proof (induction phs arbitrary: k scheds st)
  case Nil
  then show ?case by simp
next
  case (Cons phase rest)
  let ?st1 = "log_Printf (LogPhase (k + 1) count (length phase)) st"
  let ?sc = "case scheds of [] \<Rightarrow> [] | sched # _ \<Rightarrow> sched"
  obtain e st' where p: "runPhase x c phase seq dat ?sc ?st1 = (e, st')"
    by (cases "runPhase x c phase seq dat ?sc ?st1")
  have "semaphore (snd (runPhase x c phase seq dat ?sc ?st1)) = semaphore ?st1"
    by (rule runPhase_semaphore)
  with p have s: "semaphore st' = semaphore st" by (simp add: log_Printf_def)
  show ?case
  proof (cases e)
    case None
    with p s Cons.IH [of "k + 1" "tl scheds" "log_Printf (LogPhaseDone (k + 1) count) st'"]
    show ?thesis by (simp add: log_Printf_def)
  next
    case (Some err)
    with p s show ?thesis by simp
  qed
qed

lemma run_semaphore:
  "semaphore (snd (run x c seq phs dat scheds st)) = semaphore st"
proof -
  let ?st1 = "log_Printf (LogSequence (String x seq) (length phs)) st"
  have "semaphore (snd (run_loop x c seq (length phs) dat 0 phs scheds ?st1)) = semaphore ?st1"
    by (rule run_loop_semaphore)
  moreover obtain e st' where "run_loop x c seq (length phs) dat 0 phs scheds ?st1 = (e, st')"
    by (cases "run_loop x c seq (length phs) dat 0 phs scheds ?st1")
  ultimately show ?thesis
    by (simp add: run_def log_Printf_def)
qed

section \<open>The exits of Run\<close>

lemma Run_no_runtime: "r c = None \<Longrightarrow> Run x c seq dat scheds st = (Some ErrUndefinedRuntime, st)"
  by (simp add: Run_def)

lemma Run_locked:
  "r c = Some rt \<Longrightarrow> semaphore st \<noteq> 0 \<Longrightarrow> Run x c seq dat scheds st = (Some ErrLocked, st)"
  by (simp add: Run_def TryLock_held)

lemma Run_plan_error:
  "r c = Some rt \<Longrightarrow> semaphore st = 0 \<Longrightarrow> phases c seq dat = (phs, Some err) \<Longrightarrow>
   Run x c seq dat scheds st = (Some err, st)"
  by (simp add: Run_def TryLock_free Unlock_held)

lemma Run_planned:
  assumes "r c = Some rt" "semaphore st = 0" "phases c seq dat = (phs, None)"
  shows "Run x c seq dat scheds st =
     (fst (run x c seq phs dat scheds (st\<lparr>semaphore := 1\<rparr>)),
      (snd (run x c seq phs dat scheds (st\<lparr>semaphore := 1\<rparr>)))\<lparr>semaphore := 0\<rparr>)"
proof -
  obtain e st2 where rn: "run x c seq phs dat scheds (st\<lparr>semaphore := 1\<rparr>) = (e, st2)"
    by (cases "run x c seq phs dat scheds (st\<lparr>semaphore := 1\<rparr>)")
  have "semaphore (snd (run x c seq phs dat scheds (st\<lparr>semaphore := 1\<rparr>))) = semaphore (st\<lparr>semaphore := 1\<rparr>)"
    by (rule run_semaphore)
  with rn have "semaphore st2 = 1" by simp
  with rn assms show ?thesis
    by (simp add: Run_def TryLock_free Unlock_held)
qed

lemma phases_cases: "phases c seq dat = (phs, e) \<Longrightarrow> e = None \<or> e = Some ErrInvalidSequenceData"
  by (auto simp: phases_def split: Sequence.splits data.splits)

lemma Run_releases:
  assumes "semaphore st = 0"
  shows "semaphore (snd (Run x c seq dat scheds st)) = 0"
proof (cases "r c")
  case None
  with assms show ?thesis by (simp add: Run_no_runtime)
next
  case (Some rt)
  obtain phs e where ph: "phases c seq dat = (phs, e)" by (cases "phases c seq dat")
  show ?thesis
  proof (cases e)
    case None
    with Some assms ph show ?thesis by (simp add: Run_planned)
  next
    case (Some err)
    with \<open>r c = Some rt\<close> assms ph show ?thesis by (simp add: Run_plan_error)
  qed
qed

lemma run_loop_error_form:
  "run_loop x c seq count dat k phs scheds st = (Some e, st') \<Longrightarrow> \<exists>p e'. e = Errorf p e'"
proof (induction phs arbitrary: k scheds st)
  case Nil
  then show ?case by simp
next
  case (Cons phase rest)
  then show ?case
    by (auto split: prod.splits option.splits)
qed

lemma run_error_form:
  "run x c seq phs dat scheds st = (Some e, st') \<Longrightarrow> \<exists>p e'. e = Errorf p e'"
  by (auto simp: run_def split: prod.splits dest: run_loop_error_form)

lemma Run_not_locked:
  assumes "semaphore st = 0"
  shows "fst (Run x c seq dat scheds st) \<noteq> Some ErrLocked"
proof (cases "r c")
  case None
  then show ?thesis by (simp add: Run_no_runtime)
next
  case (Some rt)
  obtain phs e where ph: "phases c seq dat = (phs, e)" by (cases "phases c seq dat")
  show ?thesis
  proof (cases e)
    case None
    obtain e2 st2 where rn: "run x c seq phs dat scheds (st\<lparr>semaphore := 1\<rparr>) = (e2, st2)"
      by (cases "run x c seq phs dat scheds (st\<lparr>semaphore := 1\<rparr>)")
    have "e2 \<noteq> Some ErrLocked" using run_error_form [of x c seq phs dat scheds _ ErrLocked st2] rn
      by auto
    with None Some assms ph rn show ?thesis by (simp add: Run_planned)
  next
    case (Some err)
    with phases_cases [OF ph] have "err = ErrInvalidSequenceData" by simp
    with Some \<open>r c = Some rt\<close> assms ph show ?thesis by (simp add: Run_plan_error)
  qed
qed

lemma Run_wrong_payload:
  assumes "phases c seq dat = ([], Some ErrInvalidSequenceData)"
  shows "(r c \<noteq> None \<and> semaphore st = 0 \<longrightarrow>
            Run x c seq dat scheds st = (Some ErrInvalidSequenceData, st))
       \<and> fst (Run x c seq dat scheds st) \<noteq> None
       \<and> snd (Run x c seq dat scheds st) = st"
proof (cases "r c")
  case None
  then show ?thesis by (simp add: Run_no_runtime)
next
  case (Some rt)
  show ?thesis
  proof (cases "semaphore st = 0")
    case True
    with Some assms show ?thesis by (simp add: Run_plan_error)
  next
    case False
    with Some show ?thesis by (simp add: Run_locked)
  qed
qed

section \<open>What a phase does\<close>

lemma show_nat_small:
  "show_nat 1 = ''1''" "show_nat 2 = ''2''" "show_nat 3 = ''3''"
  "show_nat (Suc 0) = ''1''" "show_nat (Suc (Suc 0)) = ''2''" "show_nat (Suc (Suc (Suc 0))) = ''3''"
  by (simp_all add: show_nat.simps digit_char_def)

lemma runPhase_units_nth:
  "i < length phase \<Longrightarrow>
   map (\<lambda>(number, task). runPhase_unit x c (number + 1) (length phase) task seq dat)
     (enumerate 0 phase) ! i = runPhase_unit x c (i + 1) (length phase) (phase ! i) seq dat"
  by (simp add: nth_enumerate_eq)

lemma errgroup_Wait_results:
  assumes "\<forall>i \<in> set order. i < length phase"
  shows "errgroup_Wait
       (map (\<lambda>(number, task). runPhase_unit x c (number + 1) (length phase) task seq dat)
          (enumerate 0 phase)) order g st =
     (case g of
        Some e \<Rightarrow> Some e
      | None \<Rightarrow>
         (case first_failure (fst (task_results x c phase seq dat order (machine st))) of
            None \<Rightarrow> None
          | Some (n, e) \<Rightarrow>
              Some (Errorf (''task '' @ show_nat n @ ''/'' @ show_nat (length phase) @ '': failed, '') e)),
      st\<lparr>machine := snd (task_results x c phase seq dat order (machine st)),
         logs := logs st @ task_log (length phase) (fst (task_results x c phase seq dat order (machine st)))\<rparr>)"
  using assms
proof (induction order arbitrary: g st)
  case Nil
  then show ?case by (simp add: task_log_def split: option.splits)
next
  case (Cons i order)
  let ?units = "map (\<lambda>(number, task). runPhase_unit x c (number + 1) (length phase) task seq dat)
          (enumerate 0 phase)"
  from Cons.prems have i: "i < length phase" and rest: "\<forall>i \<in> set order. i < length phase"
    by simp_all
  obtain res w' where rt: "runTask x c (i + 1) (phase ! i) seq dat (machine st) = (res, w')"
    by (cases "runTask x c (i + 1) (phase ! i) seq dat (machine st)")
  obtain rs w'' where tr: "task_results x c phase seq dat order w' = (rs, w'')"
    by (cases "task_results x c phase seq dat order w'")
  let ?st' = "st\<lparr>machine := w', logs := logs st @ [LogTaskStarting (i + 1) (length phase), LogTaskDone (i + 1) (length phase)]\<rparr>"
  let ?res' = "case res of None \<Rightarrow> None | Some err \<Rightarrow> Some (Errorf (''task '' @ progress (i + 1) (length phase) @ '': failed, '') err)"
  have "(?units ! i) st = runPhase_unit x c (i + 1) (length phase) (phase ! i) seq dat st"
    by (simp only: runPhase_units_nth [OF i])
  also have "\<dots> = (?res', ?st')"
    using rt by (simp add: runPhase_unit_def log_Printf_def split: option.splits)
  finally have u: "(?units ! i) st = (?res', ?st')" .
  have m: "machine ?st' = w'" by simp
  note ih = Cons.IH [OF rest, of "case g of None \<Rightarrow> ?res' | Some e \<Rightarrow> Some e" ?st', unfolded m tr]
  show ?case
    using u ih rt tr
    by (cases g; cases res) (simp_all add: task_log_def progress_def)
qed

lemma task_results_numbers:
  "map fst (fst (task_results x c phase seq dat order w)) = map Suc order"
proof (induction order arbitrary: w)
  case Nil
  then show ?case by simp
next
  case (Cons i order)
  obtain res w1 where a: "runTask x c (i + 1) (phase ! i) seq dat w = (res, w1)"
    by (cases "runTask x c (i + 1) (phase ! i) seq dat w")
  obtain rs w2 where b: "task_results x c phase seq dat order w1 = (rs, w2)"
    by (cases "task_results x c phase seq dat order w1")
  from Cons.IH [of w1] b have "map fst rs = map Suc order" by simp
  with a b show ?case by simp
qed

lemma first_failure_None: "first_failure rs = None \<longleftrightarrow> (\<forall>(n, res) \<in> set rs. res = None)"
  by (induction rs rule: first_failure.induct) auto

lemma first_failure_Some:
  "first_failure rs = Some (n, e) \<longleftrightarrow>
     (\<exists>pre post. rs = pre @ (n, Some e) # post \<and> (\<forall>(m, res) \<in> set pre. res = None))"
proof (induction rs rule: first_failure.induct)
  case 1
  then show ?case by simp
next
  case (2 m e' rs)
  show ?case
  proof
    assume "first_failure ((m, Some e') # rs) = Some (n, e)"
    then have "(m, Some e') # rs = [] @ (n, Some e) # rs" by simp
    then show "\<exists>pre post. (m, Some e') # rs = pre @ (n, Some e) # post \<and> (\<forall>(m, res) \<in> set pre. res = None)"
      by (metis empty_iff empty_set)
  next
    assume "\<exists>pre post. (m, Some e') # rs = pre @ (n, Some e) # post \<and> (\<forall>(m, res) \<in> set pre. res = None)"
    then obtain pre post where eq: "(m, Some e') # rs = pre @ (n, Some e) # post"
      and none: "\<forall>(m, res) \<in> set pre. res = None" by blast
    show "first_failure ((m, Some e') # rs) = Some (n, e)"
    proof (cases pre)
      case Nil
      with eq show ?thesis by simp
    next
      case (Cons a pre')
      with eq none show ?thesis by auto
    qed
  qed
next
  case (3 m rs)
  show ?case
  proof
    assume "first_failure ((m, None) # rs) = Some (n, e)"
    with 3 obtain pre post where "rs = pre @ (n, Some e) # post" "\<forall>(m, res) \<in> set pre. res = None"
      by auto
    then have "(m, None) # rs = ((m, None) # pre) @ (n, Some e) # post \<and> (\<forall>(m, res) \<in> set ((m, None) # pre). res = None)"
      by simp
    then show "\<exists>pre post. (m, None) # rs = pre @ (n, Some e) # post \<and> (\<forall>(m, res) \<in> set pre. res = None)"
      by blast
  next
    assume "\<exists>pre post. (m, None) # rs = pre @ (n, Some e) # post \<and> (\<forall>(m, res) \<in> set pre. res = None)"
    then obtain pre post where eq: "(m, None) # rs = pre @ (n, Some e) # post"
      and none: "\<forall>(m, res) \<in> set pre. res = None" by blast
    then obtain pre' where "pre = (m, None) # pre'" by (cases pre) auto
    with eq none have "rs = pre' @ (n, Some e) # post \<and> (\<forall>(m, res) \<in> set pre'. res = None)" by simp
    with 3 show "first_failure ((m, None) # rs) = Some (n, e)" by auto
  qed
qed

lemma runPhase_results:
  "runPhase x c phase seq dat sched st =
     (case first_failure (fst (task_results x c phase seq dat (completion_order (length phase) sched) (machine st))) of
            None \<Rightarrow> None
          | Some (n, e) \<Rightarrow>
              Some (Errorf (''task '' @ show_nat n @ ''/'' @ show_nat (length phase) @ '': failed, '') e),
      st\<lparr>machine := snd (task_results x c phase seq dat (completion_order (length phase) sched) (machine st)),
         logs := logs st @ task_log (length phase) (fst (task_results x c phase seq dat (completion_order (length phase) sched) (machine st)))\<rparr>)"
proof -
  have "\<forall>i \<in> set (completion_order (length phase) sched). i < length phase"
    by (simp add: completion_order_set)
  from errgroup_Wait_results [OF this, of x c seq dat None st]
  show ?thesis by (simp add: runPhase_def)
qed

section \<open>What the loop over the phases does\<close>










section \<open>What the listener sends\<close>

lemma sigterm_goroutine_sends_nil: "fst (sigterm_goroutine x c scheds st) = None"
  by (simp add: sigterm_goroutine_def split: prod.splits option.splits)

lemma acpi_goroutine_sends:
  "fst (acpi_goroutine x c listener scheds st) = listener"
  by (simp add: acpi_goroutine_def split: prod.splits option.splits)

lemma ListenForEvents_error_source:
  assumes "fst (ListenForEvents x c first scheds st) = Returns (Some e)"
  shows "first = Some (ACPI (Some e))"
proof (cases "r c")
  case None
  with assms show ?thesis by (simp add: ListenForEvents_def)
next
  case (Some rt)
  show ?thesis
  proof (cases "PlatformMode x rt = ModeContainer")
    case True
    with Some assms show ?thesis by (simp add: ListenForEvents_def)
  next
    case False
    show ?thesis
    proof (cases first)
      case None
      with Some False assms show ?thesis by (simp add: ListenForEvents_def)
    next
      case ev: (Some ev)
      show ?thesis
      proof (cases ev)
        case SIGTERM
        with ev Some False assms sigterm_goroutine_sends_nil [of x c scheds st]
        show ?thesis by (simp add: ListenForEvents_def split: prod.splits)
      next
        case (ACPI listener)
        with ev Some False assms acpi_goroutine_sends [of x c listener scheds st]
        show ?thesis by (simp add: ListenForEvents_def split: prod.splits)
      qed
    qed
  qed
qed

section \<open>Claims\<close>

text \<open>
  Claim C7. \<open>TryLock\<close> returns true exactly when the lock was already held, and false
  when the caller has just acquired it. From a free lock two successive \<open>TryLock\<close> calls
  return false then true; after \<open>Unlock\<close>, \<open>TryLock\<close> returns false again; an \<open>Unlock\<close>
  of a free lock returns normally and leaves the state as it was.
\<close>

theorem TryLock_Unlock_protocol:
  assumes "semaphore st = 0"
  shows "fst (TryLock st') = (semaphore st' \<noteq> 0)
    \<and> fst (TryLock st) = False
    \<and> semaphore (snd (TryLock st)) = 1
    \<and> fst (TryLock (snd (TryLock st))) = True
    \<and> snd (TryLock (snd (TryLock st))) = snd (TryLock st)
    \<and> Unlock (snd (TryLock (snd (TryLock st)))) = (True, st)
    \<and> fst (TryLock (snd (Unlock (snd (TryLock (snd (TryLock st))))))) = False
    \<and> Unlock st = (False, st)"
  using assms by (simp add: TryLock_def Unlock_def CompareAndSwapInt32_def)

theorem TryLock_Unlock_protocol_witness:
  "semaphore \<lparr>semaphore = 0, machine = (), logs = []\<rparr> = 0
   \<and> fst (TryLock \<lparr>semaphore = 0, machine = (), logs = []\<rparr>) = False
   \<and> fst (TryLock (snd (TryLock \<lparr>semaphore = 0, machine = (), logs = []\<rparr>))) = True
   \<and> fst (TryLock \<lparr>semaphore = 1, machine = (), logs = []\<rparr>) = True
   \<and> Unlock \<lparr>semaphore = 0, machine = (), logs = []\<rparr>
       = (False, \<lparr>semaphore = 0, machine = (), logs = []\<rparr>)"
  using TryLock_Unlock_protocol
    [of "\<lparr>semaphore = 0, machine = (), logs = []\<rparr>" "\<lparr>semaphore = 1, machine = (), logs = []\<rparr>"]
  by simp

text \<open>
  Claim C5. For every sequence and every data argument, \<open>Run\<close> on a controller without a
  runtime returns \<open>ErrUndefinedRuntime\<close> at once; the lock is not attempted: the whole
  state, the semaphore included, is as it was.
\<close>

theorem Run_undefined_runtime:
  assumes "r c = None"
  shows "Run x c seq dat scheds st = (Some ErrUndefinedRuntime, st)"
  using assms by (rule Run_no_runtime)

theorem Run_undefined_runtime_witness:
  "r (scenario_Controller\<lparr>r := None\<rparr>) = None
   \<and> Run scenario_externals (scenario_Controller\<lparr>r := None\<rparr>) SequenceShutdown NilData []
        (scenario_state 1) = (Some ErrUndefinedRuntime, scenario_state 1)
   \<and> Run scenario_externals (scenario_Controller\<lparr>r := None\<rparr>) SequenceUpgrade NilData []
        (scenario_state 0) = (Some ErrUndefinedRuntime, scenario_state 0)"
  using Run_undefined_runtime [of "scenario_Controller\<lparr>r := None\<rparr>" scenario_externals SequenceShutdown NilData "[]" "scenario_state 1"]
    Run_undefined_runtime [of "scenario_Controller\<lparr>r := None\<rparr>" scenario_externals SequenceUpgrade NilData "[]" "scenario_state 0"]
  by simp

text \<open>
  Claim C10. For every sequence value other than the seven named ones, planning yields no
  phase and no error, and \<open>Run\<close> on a controller with a runtime and a free lock returns
  \<^verbatim>\<open>nil\<close>: the machine is untouched, the lock is free again, and the log has gained only
  the opening and closing lines of the sequence with zero phases.
\<close>

theorem Run_other_sequence:
  assumes "r c = Some rt" and "semaphore st = 0"
  shows "phases c (SequenceOther n) dat = ([], None)
    \<and> Run x c (SequenceOther n) dat scheds st =
        (None, st\<lparr>logs := logs st @ [LogSequence (String x (SequenceOther n)) 0,
                                       LogSequenceDone (String x (SequenceOther n))]\<rparr>)"
proof -
  have ph: "phases c (SequenceOther n) dat = ([], None)"
    by (simp add: phases_def)
  have "Run x c (SequenceOther n) dat scheds st =
        (None, st\<lparr>logs := logs st @ [LogSequence (String x (SequenceOther n)) 0,
                                       LogSequenceDone (String x (SequenceOther n))]\<rparr>)"
    using assms by (simp add: Run_planned [OF assms ph] run_def log_Printf_def)
  with ph show ?thesis by simp
qed

theorem Run_other_sequence_witness:
  "r scenario_Controller = Some () \<and> semaphore (scenario_state 0) = 0
   \<and> Run scenario_externals scenario_Controller (SequenceOther 7) NilData [] (scenario_state 0) =
        (None, \<lparr>semaphore = 0, machine = [], logs = [LogSequence ''noop'' 0, LogSequenceDone ''noop'']\<rparr>)"
  using Run_other_sequence [of scenario_Controller "()" "scenario_state 0" 7 NilData scenario_externals "[]"]
  by (simp add: scenario_Controller_def scenario_state_def scenario_externals_def)

text \<open>
  Claim C4. If the lock is free when \<open>Run\<close> is called it is free again when \<open>Run\<close> returns,
  whichever way it returns, so that a following \<open>TryLock\<close> acquires it and a following
  \<open>Run\<close> does not fail with \<open>ErrLocked\<close>.
\<close>

theorem Run_releases_lock:
  assumes "semaphore st = 0"
  shows "semaphore (snd (Run x c seq dat scheds st)) = 0
    \<and> fst (TryLock (snd (Run x c seq dat scheds st))) = False
    \<and> fst (Run x c seq' dat' scheds' (snd (Run x c seq dat scheds st))) \<noteq> Some ErrLocked"
proof -
  have f: "semaphore (snd (Run x c seq dat scheds st)) = 0"
    using assms by (rule Run_releases)
  from f have "fst (TryLock (snd (Run x c seq dat scheds st))) = False"
    by (simp add: TryLock_free)
  moreover from f have "fst (Run x c seq' dat' scheds' (snd (Run x c seq dat scheds st))) \<noteq> Some ErrLocked"
    by (rule Run_not_locked)
  ultimately show ?thesis using f by simp
qed

theorem Run_releases_lock_witness:
  "semaphore (scenario_state 0) = 0
   \<and> semaphore (snd (Run scenario_externals scenario_Controller SequenceShutdown NilData []
        (scenario_state 0))) = 0
   \<and> semaphore (snd (Run scenario_externals scenario_Controller SequenceUpgrade NilData []
        (scenario_state 0))) = 0
   \<and> semaphore (snd (Run scenario_externals scenario_Controller SequenceInstall NilData []
        (scenario_state 0))) = 0
   \<and> fst (Run scenario_externals scenario_Controller SequenceInstall NilData []
        (snd (Run scenario_externals scenario_Controller SequenceShutdown NilData []
          (scenario_state 0)))) \<noteq> Some ErrLocked"
proof -
  have h: "semaphore (scenario_state 0) = 0"
    by (simp add: scenario_state_def)
  from h
    Run_releases_lock [OF h, where x = scenario_externals and c = scenario_Controller
      and seq = SequenceShutdown and dat = NilData and scheds = "[]"
      and seq' = SequenceInstall and dat' = NilData and scheds' = "[]"]
    Run_releases_lock [OF h, where x = scenario_externals and c = scenario_Controller
      and seq = SequenceUpgrade and dat = NilData and scheds = "[]"
      and seq' = SequenceInstall and dat' = NilData and scheds' = "[]"]
    Run_releases_lock [OF h, where x = scenario_externals and c = scenario_Controller
      and seq = SequenceInstall and dat = NilData and scheds = "[]"
      and seq' = SequenceInstall and dat' = NilData and scheds' = "[]"]
  show ?thesis by simp
qed




text \<open>
  Claim C6, as stated, fails when the lock is held: \<open>Run\<close> for the upgrade sequence with
  data that is no upgrade request then returns \<open>ErrLocked\<close>, not \<open>ErrInvalidSequenceData\<close>.
\<close>

theorem Run_wrong_payload_locked_counterexample:
  "fst (Run scenario_externals scenario_Controller SequenceUpgrade NilData [] (scenario_state 1))
     = Some ErrLocked
   \<and> fst (Run scenario_externals scenario_Controller SequenceUpgrade NilData [] (scenario_state 1))
     \<noteq> Some ErrInvalidSequenceData"
  by (simp add: Run_def scenario_state_def scenario_Controller_def TryLock_def
      CompareAndSwapInt32_def)

text \<open>
  Claim C6, amended. For the upgrade sequence with data that is not an upgrade request,
  planning returns \<open>ErrInvalidSequenceData\<close> and no phases; on a controller with a runtime
  and a free lock \<open>Run\<close> returns that error; and in every case \<open>Run\<close> returns some error
  and leaves the state as it was, so no task runs. The same holds for the reset sequence
  with data that is not a reset request.
\<close>

theorem phases_invalid_sequence_data:
  assumes "\<forall>req. dat \<noteq> UpgradeRequest req" and "\<forall>req. dat' \<noteq> ResetRequest req"
  shows "phases c SequenceUpgrade dat = ([], Some ErrInvalidSequenceData)
    \<and> phases c SequenceReset dat' = ([], Some ErrInvalidSequenceData)
    \<and> (r c \<noteq> None \<and> semaphore st = 0 \<longrightarrow>
          Run x c SequenceUpgrade dat scheds st = (Some ErrInvalidSequenceData, st)
        \<and> Run x c SequenceReset dat' scheds st = (Some ErrInvalidSequenceData, st))
    \<and> fst (Run x c SequenceUpgrade dat scheds st) \<noteq> None
    \<and> snd (Run x c SequenceUpgrade dat scheds st) = st
    \<and> fst (Run x c SequenceReset dat' scheds st) \<noteq> None
    \<and> snd (Run x c SequenceReset dat' scheds st) = st"
proof -
  have u: "phases c SequenceUpgrade dat = ([], Some ErrInvalidSequenceData)"
    using assms(1) by (cases dat) (simp_all add: phases_def)
  have v: "phases c SequenceReset dat' = ([], Some ErrInvalidSequenceData)"
    using assms(2) by (cases dat') (simp_all add: phases_def)
  from u v Run_wrong_payload [OF u, of st x scheds] Run_wrong_payload [OF v, of st x scheds]
  show ?thesis by simp
qed

theorem phases_invalid_sequence_data_witness:
  "(\<forall>req. (ResetRequest () :: (unit, unit) data) \<noteq> UpgradeRequest req)
   \<and> (\<forall>req. (NilData :: (unit, unit) data) \<noteq> ResetRequest req)
   \<and> r scenario_Controller \<noteq> None \<and> semaphore (scenario_state 0) = 0
   \<and> phases scenario_Controller SequenceUpgrade (ResetRequest ()) = ([], Some ErrInvalidSequenceData)
   \<and> Run scenario_externals scenario_Controller SequenceUpgrade (ResetRequest ()) [] (scenario_state 0)
       = (Some ErrInvalidSequenceData, scenario_state 0)
   \<and> Run scenario_externals scenario_Controller SequenceReset NilData [] (scenario_state 0)
       = (Some ErrInvalidSequenceData, scenario_state 0)"
proof -
  have h1: "\<forall>req. (ResetRequest () :: (unit, unit) data) \<noteq> UpgradeRequest req"
    and h2: "\<forall>req. (NilData :: (unit, unit) data) \<noteq> ResetRequest req"
    by simp_all
  have h3: "r scenario_Controller \<noteq> None" and h4: "semaphore (scenario_state 0) = 0"
    by (simp_all add: scenario_Controller_def scenario_state_def)
  from h1 h2 h3 h4
    phases_invalid_sequence_data [OF h1 h2, where c = scenario_Controller
      and st = "scenario_state 0" and x = scenario_externals and scheds = "[]"]
  show ?thesis by simp
qed

text \<open>
  Claim C2. For every phase and every completion order, \<open>runPhase\<close> returns only after each
  launched unit has completed, exactly once, whether or not units have failed: the machine
  and the log are the ones left by all of the tasks. It returns at most one error, the one of
  the failing unit that completes first (later failures are dropped), wrapped with the task's
  1-based number and the number of tasks of the phase. Here \<open>rs\<close> are the tasks' own results
  in completion order, and every permutation of the units is a completion order.
\<close>

theorem runPhase_first_failure:
  assumes "task_results x c phase seq dat (completion_order (length phase) sched) (machine st) = (rs, w')"
  shows "distinct (map fst rs) \<and> set (map fst rs) = {1..length phase}
    \<and> (distinct sched \<and> set sched = {0..<length phase} \<longrightarrow> map fst rs = map Suc sched)
    \<and> fst (runPhase x c phase seq dat sched st) =
        (case first_failure rs of
           None \<Rightarrow> None
         | Some (n, e) \<Rightarrow>
             Some (Errorf (''task '' @ show_nat n @ ''/'' @ show_nat (length phase) @ '': failed, '') e))
    \<and> machine (snd (runPhase x c phase seq dat sched st)) = w'
    \<and> logs (snd (runPhase x c phase seq dat sched st)) = logs st @ task_log (length phase) rs
    \<and> semaphore (snd (runPhase x c phase seq dat sched st)) = semaphore st"
proof -
  let ?order = "completion_order (length phase) sched"
  from task_results_numbers [of x c phase seq dat ?order "machine st"] assms
  have nums: "map fst rs = map Suc ?order" by simp
  have d: "distinct (map fst rs)"
    unfolding nums by (simp add: distinct_map completion_order_distinct)
  have "Suc ` {0..<length phase} = {1..length phase}"
    by (metis One_nat_def atLeastLessThanSuc_atLeastAtMost image_Suc_atLeastLessThan)
  then have s: "set (map fst rs) = {1..length phase}"
    unfolding nums by (simp add: completion_order_set)
  have p: "distinct sched \<and> set sched = {0..<length phase} \<longrightarrow> map fst rs = map Suc sched"
    unfolding nums by (simp add: completion_order_perm)
  from runPhase_results [of x c phase seq dat sched st] assms
  have r: "fst (runPhase x c phase seq dat sched st) =
        (case first_failure rs of
           None \<Rightarrow> None
         | Some (n, e) \<Rightarrow>
             Some (Errorf (''task '' @ show_nat n @ ''/'' @ show_nat (length phase) @ '': failed, '') e))"
    and m: "machine (snd (runPhase x c phase seq dat sched st)) = w'"
    and l: "logs (snd (runPhase x c phase seq dat sched st)) = logs st @ task_log (length phase) rs"
    by simp_all
  from d s p r m l runPhase_semaphore [of x c phase seq dat sched st]
  show ?thesis by simp
qed

theorem runPhase_first_failure_witness:
  "task_results scenario_externals scenario_Controller
       [marker_task ''X'', failing_task ''second'', failing_task ''third'']
       SequenceReboot NilData
       (completion_order (length [marker_task ''X'', failing_task ''second'', failing_task ''third'']) [2, 0, 1])
       (machine (scenario_state 0))
     = ([(3, Some (ErrorsNew ''third'')), (1, None), (2, Some (ErrorsNew ''second''))], [''X''])
   \<and> distinct [2, 0, 1 :: nat] \<and> set [2, 0, 1 :: nat] = {0..<3}
   \<and> runPhase scenario_externals scenario_Controller
        [marker_task ''X'', failing_task ''second'', failing_task ''third'']
        SequenceReboot NilData [2, 0, 1] (scenario_state 0)
     = (Some (Errorf ''task 3/3: failed, '' (ErrorsNew ''third'')),
        \<lparr>semaphore = 0, machine = [''X''],
         logs = [LogTaskStarting 3 3, LogTaskDone 3 3, LogTaskStarting 1 3, LogTaskDone 1 3,
                 LogTaskStarting 2 3, LogTaskDone 2 3]\<rparr>)"
proof -
  let ?phase = "[marker_task ''X'', failing_task ''second'', failing_task ''third'']"
  have h: "task_results scenario_externals scenario_Controller ?phase SequenceReboot NilData
       (completion_order (length ?phase) [2, 0, 1]) (machine (scenario_state 0))
     = ([(3, Some (ErrorsNew ''third'')), (1, None), (2, Some (ErrorsNew ''second''))], [''X''])"
    by code_simp
  have p: "distinct [2, 0, 1 :: nat]" "set [2, 0, 1 :: nat] = {0..<3}"
    by code_simp+
  obtain e st' where rp: "runPhase scenario_externals scenario_Controller ?phase SequenceReboot NilData
      [2, 0, 1] (scenario_state 0) = (e, st')"
    by (cases "runPhase scenario_externals scenario_Controller ?phase SequenceReboot NilData
      [2, 0, 1] (scenario_state 0)")
  from runPhase_first_failure [OF h] rp
  have "e = Some (Errorf ''task 3/3: failed, '' (ErrorsNew ''third''))"
    and "machine st' = [''X'']"
    and "logs st' = [LogTaskStarting 3 3, LogTaskDone 3 3, LogTaskStarting 1 3, LogTaskDone 1 3,
                 LogTaskStarting 2 3, LogTaskDone 2 3]"
    and "semaphore st' = 0"
    by (simp_all add: show_nat_small task_log_def scenario_state_def)
  then have "st' = \<lparr>semaphore = 0, machine = [''X''],
         logs = [LogTaskStarting 3 3, LogTaskDone 3 3, LogTaskStarting 1 3, LogTaskDone 1 3,
                 LogTaskStarting 2 3, LogTaskDone 2 3]\<rparr>"
    by (cases st') simp
  with h p rp \<open>e = Some (Errorf ''task 3/3: failed, '' (ErrorsNew ''third''))\<close>
  show ?thesis by simp
qed



text \<open>
  Claim C9. \<open>ListenForEvents\<close> never returns the error of a shutdown \<open>Run\<close> that it
  triggers. If it returns an error at all, that error is the one with which the power-event
  listener itself returned. When the termination signal or a power event triggers
  \<open>Run\<close> for the shutdown sequence, \<open>ListenForEvents\<close> returns \<^verbatim>\<open>nil\<close>, and an error of that
  \<open>Run\<close> is written to the log and dropped.
\<close>

theorem ListenForEvents_discards_Run_error:
  "(fst (ListenForEvents x c first scheds st) = Returns (Some e) \<longrightarrow> first = Some (ACPI (Some e)))
   \<and> (r c = Some rt \<and> PlatformMode x rt \<noteq> ModeContainer \<longrightarrow>
         fst (ListenForEvents x c (Some SIGTERM) scheds st) = Returns None
       \<and> fst (ListenForEvents x c (Some (ACPI None)) scheds st) = Returns None
       \<and> fst (ListenForEvents x c (Some (ACPI (Some e'))) scheds st) = Returns (Some e')
       \<and> (Run x c SequenceShutdown NilData scheds (log_Printf LogShutdownSIGTERM st) = (Some err, st')
            \<longrightarrow> snd (ListenForEvents x c (Some SIGTERM) scheds st)
                  = log_Printf (LogShutdownFailed err) st')
       \<and> (Run x c SequenceShutdown NilData scheds (log_Printf LogShutdownACPI st) = (Some err, st')
            \<longrightarrow> snd (ListenForEvents x c (Some (ACPI None)) scheds st)
                  = log_Printf (LogShutdownFailed err) st'))"
proof -
  have a: "fst (ListenForEvents x c first scheds st) = Returns (Some e) \<longrightarrow> first = Some (ACPI (Some e))"
    using ListenForEvents_error_source by blast
  have b: "fst (ListenForEvents x c (Some SIGTERM) scheds st) = Returns None"
    if "r c = Some rt" "PlatformMode x rt \<noteq> ModeContainer"
    using that sigterm_goroutine_sends_nil [of x c scheds st]
    by (auto simp: ListenForEvents_def split: prod.splits)
  have c: "fst (ListenForEvents x c (Some (ACPI l)) scheds st) = Returns l"
    if "r c = Some rt" "PlatformMode x rt \<noteq> ModeContainer" for l
    using that acpi_goroutine_sends [of x c l scheds st]
    by (auto simp: ListenForEvents_def split: prod.splits)
  have d: "snd (ListenForEvents x c (Some SIGTERM) scheds st) = log_Printf (LogShutdownFailed err) st'"
    if "r c = Some rt" "PlatformMode x rt \<noteq> ModeContainer"
      "Run x c SequenceShutdown NilData scheds (log_Printf LogShutdownSIGTERM st) = (Some err, st')"
    using that by (simp add: ListenForEvents_def sigterm_goroutine_def)
  have e: "snd (ListenForEvents x c (Some (ACPI None)) scheds st) = log_Printf (LogShutdownFailed err) st'"
    if "r c = Some rt" "PlatformMode x rt \<noteq> ModeContainer"
      "Run x c SequenceShutdown NilData scheds (log_Printf LogShutdownACPI st) = (Some err, st')"
    using that by (simp add: ListenForEvents_def acpi_goroutine_def)
  from a b c d e show ?thesis by blast
qed

theorem ListenForEvents_discards_Run_error_witness:
  "fst (ListenForEvents scenario_externals scenario_Controller (Some (ACPI (Some (ErrorsNew ''acpi''))))
         [] (scenario_state 0)) = Returns (Some (ErrorsNew ''acpi''))
   \<and> r scenario_Controller = Some () \<and> PlatformMode scenario_externals () \<noteq> ModeContainer
   \<and> Run scenario_externals scenario_Controller SequenceShutdown NilData []
        (log_Printf LogShutdownSIGTERM (scenario_state 0))
      = (Some (Errorf ''error running phase 2 in shutdown sequence: ''
                 (Errorf ''task 1/1: failed, '' (ErrorsNew ''disk busy''))),
         \<lparr>semaphore = 0, machine = [''A'', ''B''],
          logs = [LogShutdownSIGTERM, LogSequence ''shutdown'' 2, LogPhase 1 2 2,
                  LogTaskStarting 1 2, LogTaskDone 1 2, LogTaskStarting 2 2, LogTaskDone 2 2,
                  LogPhaseDone 1 2, LogPhase 2 2 1, LogTaskStarting 1 1, LogTaskDone 1 1,
                  LogSequenceDone ''shutdown'']\<rparr>)
   \<and> Run scenario_externals scenario_Controller SequenceShutdown NilData []
        (log_Printf LogShutdownACPI (scenario_state 1))
      = (Some ErrLocked, \<lparr>semaphore = 1, machine = [], logs = [LogShutdownACPI]\<rparr>)
   \<and> ListenForEvents scenario_externals scenario_Controller (Some SIGTERM) [] (scenario_state 0)
      = (Returns None,
         \<lparr>semaphore = 0, machine = [''A'', ''B''],
          logs = [LogShutdownSIGTERM, LogSequence ''shutdown'' 2, LogPhase 1 2 2,
                  LogTaskStarting 1 2, LogTaskDone 1 2, LogTaskStarting 2 2, LogTaskDone 2 2,
                  LogPhaseDone 1 2, LogPhase 2 2 1, LogTaskStarting 1 1, LogTaskDone 1 1,
                  LogSequenceDone ''shutdown'',
                  LogShutdownFailed (Errorf ''error running phase 2 in shutdown sequence: ''
                    (Errorf ''task 1/1: failed, '' (ErrorsNew ''disk busy'')))]\<rparr>)
   \<and> ListenForEvents scenario_externals scenario_Controller (Some (ACPI None)) [] (scenario_state 1)
      = (Returns None,
         \<lparr>semaphore = 1, machine = [], logs = [LogShutdownACPI, LogShutdownFailed ErrLocked]\<rparr>)"
proof -
  let ?err = "Errorf ''error running phase 2 in shutdown sequence: ''
                 (Errorf ''task 1/1: failed, '' (ErrorsNew ''disk busy''))"
  let ?st' = "\<lparr>semaphore = 0, machine = [''A'', ''B''],
          logs = [LogShutdownSIGTERM, LogSequence ''shutdown'' 2, LogPhase 1 2 2,
                  LogTaskStarting 1 2, LogTaskDone 1 2, LogTaskStarting 2 2, LogTaskDone 2 2,
                  LogPhaseDone 1 2, LogPhase 2 2 1, LogTaskStarting 1 1, LogTaskDone 1 1,
                  LogSequenceDone ''shutdown'']\<rparr>"
  have h1: "fst (ListenForEvents scenario_externals scenario_Controller
         (Some (ACPI (Some (ErrorsNew ''acpi'')))) [] (scenario_state 0)) = Returns (Some (ErrorsNew ''acpi''))"
    by code_simp
  have h2: "r scenario_Controller = Some () \<and> PlatformMode scenario_externals () \<noteq> ModeContainer"
    by (simp add: scenario_Controller_def scenario_externals_def)
  have h3: "Run scenario_externals scenario_Controller SequenceShutdown NilData []
        (log_Printf LogShutdownSIGTERM (scenario_state 0)) = (Some ?err, ?st')"
    by code_simp
  have h4: "Run scenario_externals scenario_Controller SequenceShutdown NilData []
        (log_Printf LogShutdownACPI (scenario_state 1))
      = (Some ErrLocked, \<lparr>semaphore = 1, machine = [], logs = [LogShutdownACPI]\<rparr>)"
    by code_simp
  note t1 = ListenForEvents_discards_Run_error [where x = scenario_externals
      and c = scenario_Controller and first = "Some (ACPI (Some (ErrorsNew ''acpi'')))"
      and scheds = "[]" and st = "scenario_state 0" and e = "ErrorsNew ''acpi''" and rt = "()"
      and e' = "ErrorsNew ''acpi''" and err = ?err and st' = ?st']
  note t2 = ListenForEvents_discards_Run_error [where x = scenario_externals
      and c = scenario_Controller and first = "Some (ACPI (Some (ErrorsNew ''acpi'')))"
      and scheds = "[]" and st = "scenario_state 1" and e = "ErrorsNew ''acpi''" and rt = "()"
      and e' = "ErrorsNew ''acpi''" and err = ErrLocked
      and st' = "\<lparr>semaphore = 1, machine = [], logs = [LogShutdownACPI]\<rparr>"]
  from t1 h2 h3
  have a: "fst (ListenForEvents scenario_externals scenario_Controller (Some SIGTERM) [] (scenario_state 0))
      = Returns None"
    and b: "snd (ListenForEvents scenario_externals scenario_Controller (Some SIGTERM) [] (scenario_state 0))
      = log_Printf (LogShutdownFailed ?err) ?st'"
    by blast+
  from t2 h2 h4
  have c: "fst (ListenForEvents scenario_externals scenario_Controller (Some (ACPI None)) [] (scenario_state 1))
      = Returns None"
    and d: "snd (ListenForEvents scenario_externals scenario_Controller (Some (ACPI None)) [] (scenario_state 1))
      = log_Printf (LogShutdownFailed ErrLocked) \<lparr>semaphore = 1, machine = [], logs = [LogShutdownACPI]\<rparr>"
    by blast+
  from a b have ab: "ListenForEvents scenario_externals scenario_Controller (Some SIGTERM) [] (scenario_state 0)
      = (Returns None, log_Printf (LogShutdownFailed ?err) ?st')"
    by (simp add: prod_eq_iff)
  from c d have cd: "ListenForEvents scenario_externals scenario_Controller (Some (ACPI None)) [] (scenario_state 1)
      = (Returns None, log_Printf (LogShutdownFailed ErrLocked) \<lparr>semaphore = 1, machine = [], logs = [LogShutdownACPI]\<rparr>)"
    by (simp add: prod_eq_iff)
  from h1 h2 h3 h4 ab cd show ?thesis
    by (simp add: log_Printf_def)
qed

end
